theory Spec2Isabelle
  imports Complex_Main
begin

section \<open>Newton-Raphson root finder and the Rachford-Rice flash model\<close>

text \<open>
  A shallow embedding of \<^verbatim>\<open>Python/newton.py\<close>.

  Numbers. The Python code computes with whatever numeric values its callables return;
  the specification describes them as real numbers. The embedding uses \<^typ>\<open>real\<close>:
  the literals \<^verbatim>\<open>1e-10\<close> and \<^verbatim>\<open>1e-6\<close> are the decimal fractions they
  denote, and \<open>+\<close>, \<open>-\<close>, \<open>*\<close>, \<open>/\<close> are exact. Rounding of binary floating point is
  not modelled. The iteration bound \<^verbatim>\<open>max_iter\<close> is a Python integer, an \<^typ>\<open>int\<close>.

  Exceptions. Every \<^verbatim>\<open>raise\<close> of the source and every exception its arithmetic and
  indexing can raise is a value of type \<open>error\<close>; a computation that can raise returns
  \<open>error + real\<close> with \<open>Inl\<close> for the exception.

  Callables. \<^verbatim>\<open>func\<close> and \<^verbatim>\<open>dfunc\<close> are arbitrary Python callables: they may raise
  and they may have effects. A callable is a function of its argument and of the state
  of the world, returning its outcome and the new state; the loop threads the state
  through the calls in program order.
\<close>

subsection \<open>Exceptions\<close>

text \<open>
  Both failures of \<^verbatim>\<open>newton_raphson\<close> are a \<^verbatim>\<open>ValueError\<close>; they differ in the
  message. The first message is fixed (the derivative is too small), the second is
  formatted with \<^verbatim>\<open>max_iter\<close> (no convergence after that many iterations).
\<close>

datatype failure = DerivativeTooSmall | ConvergenceFailure int

datatype error = ValueError failure | ZeroDivisionError | IndexError

type_synonym 's callable = "real \<Rightarrow> 's \<Rightarrow> (error + real) \<times> 's"

text \<open>Python's \<^verbatim>\<open>a / b\<close> raises on a zero divisor.\<close>

definition truediv :: "real \<Rightarrow> real \<Rightarrow> error + real" where
  "truediv a b = (if b = 0 then Inl ZeroDivisionError else Inr (a / b))"

text \<open>Sequencing of computations that can raise: the first exception wins.\<close>

definition and_then :: "error + 'a \<Rightarrow> ('a \<Rightarrow> error + 'b) \<Rightarrow> error + 'b" where
  "and_then m k = (case m of Inl e \<Rightarrow> Inl e | Inr v \<Rightarrow> k v)"

subsection \<open>The root finder\<close>

text \<open>
  \<^verbatim>\<open>
  def newton_raphson(func, dfunc, x0, tol=1e-6, max_iter=100):
      x = x0
      for i in range(max_iter):
          f_x = func(x)
          df_x = dfunc(x)
          if abs(df_x) < 1e-10:
              raise ValueError("La derivada es demasiado pequena, ...")
          x_new = x - f_x / df_x
          if abs(x_new - x) < tol:
              return x_new
          x = x_new
      raise ValueError("No se alcanzo la convergencia despues de {} iteraciones.".format(max_iter))
  \<close>
  The \<^verbatim>\<open>for\<close> loop is a recursion on the number of iterations that remain. It ends in
  one of three ways: a \<^verbatim>\<open>return\<close> (\<open>Some (Inr v)\<close>), an exception (\<open>Some (Inl e)\<close>),
  or the range is exhausted (\<open>None\<close>) and control reaches the statement after the loop.
\<close>

definition derivative_floor :: real where
  "derivative_floor = 1 / 10 ^ 10"

definition tol_default :: real where
  "tol_default = 1 / 10 ^ 6"

definition max_iter_default :: int where
  "max_iter_default = 100"

fun for_loop :: "'s callable \<Rightarrow> 's callable \<Rightarrow> real \<Rightarrow> nat \<Rightarrow> real \<Rightarrow> 's
    \<Rightarrow> (error + real) option \<times> 's" where
  "for_loop func dfunc tol 0 x s = (None, s)"
| "for_loop func dfunc tol (Suc n) x s =
    (case func x s of
       (Inl e, s1) \<Rightarrow> (Some (Inl e), s1)
     | (Inr f_x, s1) \<Rightarrow>
        (case dfunc x s1 of
           (Inl e, s2) \<Rightarrow> (Some (Inl e), s2)
         | (Inr df_x, s2) \<Rightarrow>
            if \<bar>df_x\<bar> < derivative_floor
            then (Some (Inl (ValueError DerivativeTooSmall)), s2)
            else (case truediv f_x df_x of
                    Inl e \<Rightarrow> (Some (Inl e), s2)
                  | Inr q \<Rightarrow>
                     (let x_new = x - q in
                      if \<bar>x_new - x\<bar> < tol then (Some (Inr x_new), s2)
                      else for_loop func dfunc tol n x_new s2))))"

text \<open>
  The optional arguments are \<open>None\<close> when the caller leaves them out.
  \<^verbatim>\<open>range(max_iter)\<close> has \<open>nat max_iter\<close> elements: none when \<^verbatim>\<open>max_iter\<close> is
  zero or negative.
\<close>

definition newton_raphson :: "'s callable \<Rightarrow> 's callable \<Rightarrow> real \<Rightarrow> real option \<Rightarrow> int option
    \<Rightarrow> 's \<Rightarrow> (error + real) \<times> 's" where
  "newton_raphson func dfunc x0 tol_arg max_iter_arg s =
    (let tol = (case tol_arg of None \<Rightarrow> tol_default | Some t \<Rightarrow> t);
         max_iter = (case max_iter_arg of None \<Rightarrow> max_iter_default | Some m \<Rightarrow> m)
     in case for_loop func dfunc tol (nat max_iter) x0 s of
          (Some r, s') \<Rightarrow> (r, s')
        | (None, s') \<Rightarrow> (Inl (ValueError (ConvergenceFailure max_iter)), s'))"

subsection \<open>The Rachford-Rice functions\<close>

text \<open>
  \<^verbatim>\<open>
  def rachford_rice(V):
      return sum(z[i] * (K[i] - 1) / (1 + V * (K[i] - 1)) for i in range(len(z)))

  def d_rachford_rice(V):
      return sum(-z[i] * (K[i] - 1)**2 / (1 + V * (K[i] - 1))**2 for i in range(len(z)))
  \<close>
  The module's globals \<^verbatim>\<open>z\<close> and \<^verbatim>\<open>K\<close> are read at each call; they are parameters
  of the model. Indexing a list raises \<^verbatim>\<open>IndexError\<close> out of range. \<^verbatim>\<open>sum\<close> starts
  from 0 and adds the terms of the generator in the order it yields them; an exception
  in a term ends the sum.
\<close>

definition getitem :: "real list \<Rightarrow> nat \<Rightarrow> error + real" where
  "getitem xs i = (if i < length xs then Inr (xs ! i) else Inl IndexError)"

fun py_sum :: "(nat \<Rightarrow> error + real) \<Rightarrow> nat list \<Rightarrow> real \<Rightarrow> error + real" where
  "py_sum gen [] acc = Inr acc"
| "py_sum gen (i # is) acc =
    (case gen i of Inl e \<Rightarrow> Inl e | Inr t \<Rightarrow> py_sum gen is (acc + t))"

definition rr_term :: "real list \<Rightarrow> real list \<Rightarrow> real \<Rightarrow> nat \<Rightarrow> error + real" where
  "rr_term z K V i =
    and_then (getitem z i) (\<lambda>zi.
    and_then (getitem K i) (\<lambda>Ki.
    and_then (getitem K i) (\<lambda>Ki'.
      truediv (zi * (Ki - 1)) (1 + V * (Ki' - 1)))))"

definition d_rr_term :: "real list \<Rightarrow> real list \<Rightarrow> real \<Rightarrow> nat \<Rightarrow> error + real" where
  "d_rr_term z K V i =
    and_then (getitem z i) (\<lambda>zi.
    and_then (getitem K i) (\<lambda>Ki.
    and_then (getitem K i) (\<lambda>Ki'.
      truediv (- zi * (Ki - 1)\<^sup>2) ((1 + V * (Ki' - 1))\<^sup>2))))"

definition rachford_rice :: "real list \<Rightarrow> real list \<Rightarrow> real \<Rightarrow> error + real" where
  "rachford_rice z K V = py_sum (rr_term z K V) [0..<length z] 0"

definition d_rachford_rice :: "real list \<Rightarrow> real list \<Rightarrow> real \<Rightarrow> error + real" where
  "d_rachford_rice z K V = py_sum (d_rr_term z K V) [0..<length z] 0"

text \<open>
  A callable that does not touch the state of the world: a deterministic function of its
  argument, which may still raise.
\<close>

definition stateless :: "(real \<Rightarrow> error + real) \<Rightarrow> 's callable" where
  "stateless f x s = (f x, s)"

text \<open>
  The module's data and its call of the solver
  (\<^verbatim>\<open>z = [0.1,0.2,0.3,0.4]\<close>, \<^verbatim>\<open>K = [4.2,1.75,0.74,0.34]\<close>, \<^verbatim>\<open>V0 = 0\<close>,
  \<^verbatim>\<open>V_solution = newton_raphson(rachford_rice, d_rachford_rice, V0)\<close>).
\<close>

definition z_data :: "real list" where
  "z_data = [1/10, 2/10, 3/10, 4/10]"

definition K_data :: "real list" where
  "K_data = [42/10, 175/100, 74/100, 34/100]"

definition V0 :: real where
  "V0 = 0"

definition V_solution :: "error + real" where
  "V_solution =
    fst (newton_raphson (stateless (rachford_rice z_data K_data))
           (stateless (d_rachford_rice z_data K_data)) V0 None None ())"

subsection \<open>Notions used to state the properties\<close>

text \<open>
  The Newton update of the specification, \<open>x_new = x - f(x) / f'(x)\<close>, for mathematical
  functions \<open>f\<close> and \<open>f'\<close>, and the sequence \<open>x\<^sub>0, x\<^sub>1, ...\<close> it generates from a
  starting point. These follow the specification's words; the properties compare the
  code with them.
\<close>

definition newton_update :: "(real \<Rightarrow> real) \<Rightarrow> (real \<Rightarrow> real) \<Rightarrow> real \<Rightarrow> real" where
  "newton_update f df x = x - f x / df x"

fun newton_iterate :: "(real \<Rightarrow> real) \<Rightarrow> (real \<Rightarrow> real) \<Rightarrow> real \<Rightarrow> nat \<Rightarrow> real" where
  "newton_iterate f df x0 0 = x0"
| "newton_iterate f df x0 (Suc k) = newton_update f df (newton_iterate f df x0 k)"

text \<open>
  Observing evaluations. To say how often and where the solver evaluates its callables,
  the state of the world is taken to be a log of calls; \<open>observed tag f\<close> is the callable
  that returns \<open>f x\<close>, never raises, and appends the call to the log. \<open>trace f df x0 k\<close>
  is the log of \<open>k\<close> full iterations from \<open>x0\<close>: at each iterate, first \<open>f\<close>, then \<open>f'\<close>.
\<close>

datatype call = Call_func real | Call_dfunc real

definition observed :: "(real \<Rightarrow> call) \<Rightarrow> (real \<Rightarrow> real) \<Rightarrow> call list callable" where
  "observed tag f x cs = (Inr (f x), cs @ [tag x])"

fun trace :: "(real \<Rightarrow> real) \<Rightarrow> (real \<Rightarrow> real) \<Rightarrow> real \<Rightarrow> nat \<Rightarrow> call list" where
  "trace f df x0 0 = []"
| "trace f df x0 (Suc k) =
     trace f df x0 k @ [Call_func (newton_iterate f df x0 k), Call_dfunc (newton_iterate f df x0 k)]"

text \<open>
  Closed forms for the module's data. With \<open>z\<^sub>i (K\<^sub>i - 1)\<close> and \<open>z\<^sub>i (K\<^sub>i - 1)\<^sup>2\<close>
  multiplied out, the objective is \<open>rr_objective V\<close> and the derivative is
  \<open>- rr_steepness V V\<close>. The steepness takes the point twice: once for the two terms
  with \<open>K\<^sub>i > 1\<close>, which fall as \<open>V\<close> grows, and once for the two terms with \<open>K\<^sub>i < 1\<close>,
  which rise; this gives bounds of the steepness over an interval.
\<close>

definition rr_objective :: "real \<Rightarrow> real" where
  "rr_objective V =
     8 / 25 / (1 + 16 / 5 * V) + 3 / 20 / (1 + 3 / 4 * V)
     - 39 / 500 / (1 - 13 / 50 * V) - 33 / 125 / (1 - 33 / 50 * V)"

definition rr_steepness :: "real \<Rightarrow> real \<Rightarrow> real" where
  "rr_steepness U V =
     128 / 125 / (1 + 16 / 5 * U)\<^sup>2 + 9 / 80 / (1 + 3 / 4 * U)\<^sup>2
     + 507 / 25000 / (1 - 13 / 50 * V)\<^sup>2 + 1089 / 6250 / (1 - 33 / 50 * V)\<^sup>2"

text \<open>
  An iteration of the loop starts with an evaluation of \<^verbatim>\<open>func\<close>: the number of
  iterations a call has started is the number of these evaluations in its log.
\<close>

fun is_func_call :: "call \<Rightarrow> bool" where
  "is_func_call (Call_func x) = True"
| "is_func_call (Call_dfunc x) = False"

definition iterations :: "call list \<Rightarrow> nat" where
  "iterations cs = length (filter is_func_call cs)"

text \<open>
  Functions for concrete runs: \<open>x\<^sup>2 - 2\<close> and \<open>x\<^sup>2 + 1\<close> with their derivative \<open>2x\<close>, and a
  line of slope \<open>10\<^sup>-\<^sup>1\<^sup>1\<close> through the origin.
\<close>

definition sq_minus_2 :: "real \<Rightarrow> real" where
  "sq_minus_2 x = x\<^sup>2 - 2"

definition twice :: "real \<Rightarrow> real" where
  "twice x = 2 * x"

definition sq_plus_1 :: "real \<Rightarrow> real" where
  "sq_plus_1 x = x\<^sup>2 + 1"

definition shallow_line :: "real \<Rightarrow> real" where
  "shallow_line x = x / 10 ^ 11"

definition shallow_slope :: "real \<Rightarrow> real" where
  "shallow_slope x = 1 / 10 ^ 11"

section \<open>Properties\<close>

subsection \<open>Running the loop on observed functions\<close>

lemma newton_iterate_shift:
  "newton_iterate f df x0 (Suc k) = newton_iterate f df (newton_update f df x0) k"
  by (induction k) simp_all

lemma trace_shift:
  "trace f df x0 (Suc k) = Call_func x0 # Call_dfunc x0 # trace f df (newton_update f df x0) k"
proof (induction k)
  case 0
  show ?case by simp
next
  case (Suc k)
  have "trace f df x0 (Suc (Suc k)) =
      trace f df x0 (Suc k) @ [Call_func (newton_iterate f df x0 (Suc k)),
        Call_dfunc (newton_iterate f df x0 (Suc k))]"
    by simp
  also have "\<dots> = Call_func x0 # Call_dfunc x0 # trace f df (newton_update f df x0) (Suc k)"
    by (simp only: Suc.IH newton_iterate_shift) simp
  finally show ?case .
qed

text \<open>One iteration of the loop on observed functions, in its three outcomes.\<close>

lemma for_loop_observed_small_derivative:
  assumes "\<bar>df x\<bar> < derivative_floor"
  shows "for_loop (observed Call_func f) (observed Call_dfunc df) tol (Suc n) x cs
          = (Some (Inl (ValueError DerivativeTooSmall)), cs @ [Call_func x, Call_dfunc x])"
  using assms by (simp add: observed_def)

lemma for_loop_observed_return:
  assumes "derivative_floor \<le> \<bar>df x\<bar>" and "\<bar>newton_update f df x - x\<bar> < tol"
  shows "for_loop (observed Call_func f) (observed Call_dfunc df) tol (Suc n) x cs
          = (Some (Inr (newton_update f df x)), cs @ [Call_func x, Call_dfunc x])"
proof -
  have "df x \<noteq> 0"
    using assms(1) by (auto simp: derivative_floor_def)
  then show ?thesis
    using assms by (simp add: observed_def truediv_def newton_update_def)
qed

lemma for_loop_observed_continue:
  assumes "derivative_floor \<le> \<bar>df x\<bar>" and "tol \<le> \<bar>newton_update f df x - x\<bar>"
  shows "for_loop (observed Call_func f) (observed Call_dfunc df) tol (Suc n) x cs
          = for_loop (observed Call_func f) (observed Call_dfunc df) tol n (newton_update f df x)
              (cs @ [Call_func x, Call_dfunc x])"
proof -
  have "df x \<noteq> 0"
    using assms(1) by (auto simp: derivative_floor_def)
  then show ?thesis
    using assms by (simp add: observed_def truediv_def newton_update_def)
qed

text \<open>
  As long as the derivative stays away from the floor and no step meets the tolerance,
  \<open>k\<close> iterations take the loop from \<open>x\<^sub>0\<close> to \<open>x\<^sub>k\<close> and log \<open>trace f df x0 k\<close>.
\<close>

lemma for_loop_observed_run:
  assumes "\<forall>j<k. derivative_floor \<le> \<bar>df (newton_iterate f df x0 j)\<bar>
              \<and> tol \<le> \<bar>newton_iterate f df x0 (Suc j) - newton_iterate f df x0 j\<bar>"
  shows "for_loop (observed Call_func f) (observed Call_dfunc df) tol (k + n) x0 cs
          = for_loop (observed Call_func f) (observed Call_dfunc df) tol n (newton_iterate f df x0 k)
              (cs @ trace f df x0 k)"
  using assms
proof (induction k arbitrary: x0 cs)
  case 0
  show ?case by simp
next
  case (Suc k)
  let ?x1 = "newton_update f df x0"
  from Suc.prems have first: "derivative_floor \<le> \<bar>df x0\<bar>" "tol \<le> \<bar>?x1 - x0\<bar>"
    by force+
  have rest: "\<forall>j<k. derivative_floor \<le> \<bar>df (newton_iterate f df ?x1 j)\<bar>
      \<and> tol \<le> \<bar>newton_iterate f df ?x1 (Suc j) - newton_iterate f df ?x1 j\<bar>"
  proof (intro allI impI)
    fix j assume "j < k"
    then have "Suc j < Suc k" by simp
    with Suc.prems show "derivative_floor \<le> \<bar>df (newton_iterate f df ?x1 j)\<bar>
      \<and> tol \<le> \<bar>newton_iterate f df ?x1 (Suc j) - newton_iterate f df ?x1 j\<bar>"
      unfolding newton_iterate_shift [symmetric] by blast
  qed
  have "for_loop (observed Call_func f) (observed Call_dfunc df) tol (Suc k + n) x0 cs
      = for_loop (observed Call_func f) (observed Call_dfunc df) tol (k + n) ?x1 (cs @ [Call_func x0, Call_dfunc x0])"
    using for_loop_observed_continue [OF first] by simp
  also have "\<dots> = for_loop (observed Call_func f) (observed Call_dfunc df) tol n (newton_iterate f df ?x1 k)
      ((cs @ [Call_func x0, Call_dfunc x0]) @ trace f df ?x1 k)"
    by (rule Suc.IH [OF rest])
  also have "\<dots> = for_loop (observed Call_func f) (observed Call_dfunc df) tol n
      (newton_iterate f df x0 (Suc k)) (cs @ trace f df x0 (Suc k))"
    by (simp only: newton_iterate_shift trace_shift append_assoc append_Cons append_Nil)
  finally show ?case .
qed

text \<open>The same for a whole call: after \<open>k\<close> such iterations, \<open>n\<close> iterations remain.\<close>

lemma newton_raphson_observed_run:
  assumes "\<forall>j<k. 1 / 10 ^ 10 \<le> \<bar>df (newton_iterate f df x0 j)\<bar>
              \<and> tol \<le> \<bar>newton_iterate f df x0 (Suc j) - newton_iterate f df x0 j\<bar>"
    and "nat max_iter = k + n"
  shows "newton_raphson (observed Call_func f) (observed Call_dfunc df) x0 (Some tol) (Some max_iter) cs
          = (case for_loop (observed Call_func f) (observed Call_dfunc df) tol n
                    (newton_iterate f df x0 k) (cs @ trace f df x0 k) of
               (Some r, s') \<Rightarrow> (r, s')
             | (None, s') \<Rightarrow> (Inl (ValueError (ConvergenceFailure max_iter)), s'))"
proof -
  have fl: "\<forall>j<k. derivative_floor \<le> \<bar>df (newton_iterate f df x0 j)\<bar>
              \<and> tol \<le> \<bar>newton_iterate f df x0 (Suc j) - newton_iterate f df x0 j\<bar>"
    using assms(1) unfolding derivative_floor_def .
  show ?thesis
    unfolding newton_raphson_def option.case Let_def assms(2) for_loop_observed_run [OF fl] ..
qed

subsection \<open>An empty iteration range\<close>

text \<open>
  Claim C9. With \<^verbatim>\<open>max_iter\<close> zero or negative the loop body is never entered:
  whatever the callables are (they may raise, they may change the state), the call
  fails with the convergence failure that carries this \<^verbatim>\<open>max_iter\<close>, and the state
  of the world is the one the call started in, so neither callable was evaluated.
\<close>

theorem max_iter_nonpositive_fails:
  assumes "max_iter \<le> 0"
  shows "newton_raphson func dfunc x0 tol_arg (Some max_iter) s
          = (Inl (ValueError (ConvergenceFailure max_iter)), s)"
  using assms by (simp add: newton_raphson_def)

text \<open>A run of C9: the callables are observed, and the log stays empty.\<close>

theorem max_iter_nonpositive_fails_witness:
  "newton_raphson (observed Call_func sq_minus_2) (observed Call_dfunc twice) 1 None (Some (- 3)) []
     = (Inl (ValueError (ConvergenceFailure (- 3))), [])
   \<and> newton_raphson (observed Call_func sq_minus_2) (observed Call_dfunc twice) 1 None (Some 0) []
     = (Inl (ValueError (ConvergenceFailure 0)), [])"
proof -
  have neg: "(- 3 :: int) \<le> 0" and zero: "(0::int) \<le> 0"
    by simp_all
  show ?thesis
    by (intro conjI max_iter_nonpositive_fails neg zero)
qed

subsection \<open>The iteration and its result\<close>

text \<open>
  Claim C1. The solver iterates exactly the Newton update from \<open>x0\<close>: when iteration
  \<open>k\<close> (counting from 0) is within the range and is the first whose step
  \<open>\<bar>x\<^sub>k\<^sub>+\<^sub>1 - x\<^sub>k\<bar>\<close> is below the tolerance, the derivative having stayed at or above
  the floor so that each update was computed, the call returns the updated value
  \<open>x\<^sub>k\<^sub>+\<^sub>1\<close>, having evaluated \<open>f\<close> and \<open>f'\<close> once at each of \<open>x\<^sub>0, ..., x\<^sub>k\<close> and nowhere
  else. Leaving out the optional arguments means tolerance \<open>10\<^sup>-\<^sup>6\<close> and 100 iterations.
\<close>

theorem newton_returns_updated_value:
  assumes "k < nat max_iter"
    and "\<forall>j<k. 1 / 10 ^ 10 \<le> \<bar>df (newton_iterate f df x0 j)\<bar>
              \<and> tol \<le> \<bar>newton_iterate f df x0 (Suc j) - newton_iterate f df x0 j\<bar>"
    and "1 / 10 ^ 10 \<le> \<bar>df (newton_iterate f df x0 k)\<bar>"
    and "\<bar>newton_iterate f df x0 (Suc k) - newton_iterate f df x0 k\<bar> < tol"
  shows "newton_raphson (observed Call_func f) (observed Call_dfunc df) x0 (Some tol) (Some max_iter) cs
           = (Inr (newton_iterate f df x0 (Suc k)), cs @ trace f df x0 (Suc k))
         \<and> newton_raphson func dfunc x0 None None s
           = newton_raphson func dfunc x0 (Some (1 / 10 ^ 6)) (Some 100) s"
proof
  obtain n where "nat max_iter = Suc (k + n)"
    using less_imp_Suc_add [OF assms(1)] by (elim exE)
  then have n: "nat max_iter = k + Suc n"
    by simp
  have g: "derivative_floor \<le> \<bar>df (newton_iterate f df x0 k)\<bar>"
    using assms(3) unfolding derivative_floor_def .
  have st: "\<bar>newton_update f df (newton_iterate f df x0 k) - newton_iterate f df x0 k\<bar> < tol"
    using assms(4) by (simp only: newton_iterate.simps)
  show "newton_raphson (observed Call_func f) (observed Call_dfunc df) x0 (Some tol) (Some max_iter) cs
           = (Inr (newton_iterate f df x0 (Suc k)), cs @ trace f df x0 (Suc k))"
    unfolding newton_raphson_observed_run [OF assms(2) n] for_loop_observed_return [OF g st]
    by (simp only: prod.case option.case newton_iterate.simps trace.simps append_assoc)
  show "newton_raphson func dfunc x0 None None s
           = newton_raphson func dfunc x0 (Some (1 / 10 ^ 6)) (Some 100) s"
    by (simp add: newton_raphson_def tol_default_def max_iter_default_def)
qed

text \<open>
  A run of the theorem: \<open>x\<^sup>2 - 2\<close> from 1 with tolerance \<open>1/100\<close> returns at iteration 2,
  after the steps \<open>1/2\<close> and \<open>1/12\<close> and a third step \<open>1/408\<close>, with \<open>x\<^sub>3 = 577/408\<close>.
\<close>

theorem newton_returns_updated_value_witness:
  "newton_raphson (observed Call_func sq_minus_2) (observed Call_dfunc twice) 1 (Some (1 / 100)) (Some 100) []
     = (Inr (577 / 408),
        [Call_func 1, Call_dfunc 1, Call_func (3 / 2), Call_dfunc (3 / 2),
         Call_func (17 / 12), Call_dfunc (17 / 12)])
   \<and> newton_raphson (observed Call_func sq_minus_2) (observed Call_dfunc twice) 1 None None []
     = newton_raphson (observed Call_func sq_minus_2) (observed Call_dfunc twice) 1
         (Some (1 / 10 ^ 6)) (Some 100) []"
proof -
  have x1: "newton_iterate sq_minus_2 twice 1 (Suc 0) = 3 / 2"
    by (simp add: newton_update_def sq_minus_2_def twice_def)
  have x2: "newton_iterate sq_minus_2 twice 1 (Suc (Suc 0)) = 17 / 12"
    by (simp add: newton_update_def sq_minus_2_def twice_def power2_eq_square)
  have x3: "newton_iterate sq_minus_2 twice 1 (Suc (Suc (Suc 0))) = 577 / 408"
    by (simp add: newton_update_def sq_minus_2_def twice_def power2_eq_square)
  have in_range: "Suc (Suc 0) < nat 100"
    by simp
  have steps: "\<forall>j<Suc (Suc 0). 1 / 10 ^ 10 \<le> \<bar>twice (newton_iterate sq_minus_2 twice 1 j)\<bar>
      \<and> 1 / 100 \<le> \<bar>newton_iterate sq_minus_2 twice 1 (Suc j) - newton_iterate sq_minus_2 twice 1 j\<bar>"
    unfolding All_less_Suc x1 x2 by (simp add: twice_def)
  have guard: "1 / 10 ^ 10 \<le> \<bar>twice (newton_iterate sq_minus_2 twice 1 (Suc (Suc 0)))\<bar>"
    unfolding x2 by (simp add: twice_def)
  have step: "\<bar>newton_iterate sq_minus_2 twice 1 (Suc (Suc (Suc 0)))
      - newton_iterate sq_minus_2 twice 1 (Suc (Suc 0))\<bar> < 1 / 100"
    unfolding x2 x3 by simp
  have tr: "[] @ trace sq_minus_2 twice 1 (Suc (Suc (Suc 0)))
      = [Call_func 1, Call_dfunc 1, Call_func (3 / 2), Call_dfunc (3 / 2),
         Call_func (17 / 12), Call_dfunc (17 / 12)]"
    using x1 x2 by simp
  show ?thesis
    using newton_returns_updated_value [OF in_range steps guard step, of "[]"
        "observed Call_func sq_minus_2" "observed Call_dfunc twice" "[]"]
    unfolding x3 tr .
qed

text \<open>
  Claim C2. When the derivative evaluated at an iterate is below the floor \<open>10\<^sup>-\<^sup>1\<^sup>0\<close> in
  absolute value, the call fails there with the derivative failure and nothing more is
  evaluated: if this happens at iteration \<open>k\<close>, the evaluations are those at
  \<open>x\<^sub>0, ..., x\<^sub>k\<close>, the last being \<open>f'\<close> at \<open>x\<^sub>k\<close>. At the very first iterate this holds for
  arbitrary callables (with effects): the call fails in the state that one evaluation of
  \<^verbatim>\<open>func\<close> followed by one of \<^verbatim>\<open>dfunc\<close> has produced, without a Newton update.
\<close>

theorem small_derivative_fails_immediately:
  assumes "k < nat max_iter"
    and "\<forall>j<k. 1 / 10 ^ 10 \<le> \<bar>df (newton_iterate f df x0 j)\<bar>
              \<and> tol \<le> \<bar>newton_iterate f df x0 (Suc j) - newton_iterate f df x0 j\<bar>"
    and "\<bar>df (newton_iterate f df x0 k)\<bar> < 1 / 10 ^ 10"
  shows "newton_raphson (observed Call_func f) (observed Call_dfunc df) x0 (Some tol) (Some max_iter) cs
           = (Inl (ValueError DerivativeTooSmall), cs @ trace f df x0 (Suc k))
         \<and> (func x s = (Inr f_x, s1) \<and> dfunc x s1 = (Inr df_x, s2) \<and> \<bar>df_x\<bar> < 1 / 10 ^ 10
              \<longrightarrow> newton_raphson func dfunc x tol_arg (Some max_iter) s
                    = (Inl (ValueError DerivativeTooSmall), s2))"
proof (intro conjI impI)
  obtain n where "nat max_iter = Suc (k + n)"
    using less_imp_Suc_add [OF assms(1)] by (elim exE)
  then have n: "nat max_iter = k + Suc n"
    by simp
  have g: "\<bar>df (newton_iterate f df x0 k)\<bar> < derivative_floor"
    using assms(3) unfolding derivative_floor_def .
  show "newton_raphson (observed Call_func f) (observed Call_dfunc df) x0 (Some tol) (Some max_iter) cs
           = (Inl (ValueError DerivativeTooSmall), cs @ trace f df x0 (Suc k))"
    unfolding newton_raphson_observed_run [OF assms(2) n]
      for_loop_observed_small_derivative [of df "newton_iterate f df x0 k", OF g]
    by (simp only: prod.case option.case trace.simps append_assoc)
next
  assume first: "func x s = (Inr f_x, s1) \<and> dfunc x s1 = (Inr df_x, s2) \<and> \<bar>df_x\<bar> < 1 / 10 ^ 10"
  obtain m where m: "nat max_iter = Suc m"
    using assms(1) by (cases "nat max_iter") simp_all
  show "newton_raphson func dfunc x tol_arg (Some max_iter) s
      = (Inl (ValueError DerivativeTooSmall), s2)"
    using first by (simp add: newton_raphson_def m derivative_floor_def)
qed

text \<open>
  Two runs: \<open>x\<^sup>2 + 1\<close> from 1, whose first update lands on 0, where the derivative
  vanishes; and a derivative of \<open>10\<^sup>-\<^sup>1\<^sup>1\<close> at the first iterate.
\<close>

theorem small_derivative_fails_immediately_witness:
  "newton_raphson (observed Call_func sq_plus_1) (observed Call_dfunc twice) 1 (Some (1 / 10 ^ 6))
      (Some 100) []
     = (Inl (ValueError DerivativeTooSmall), [Call_func 1, Call_dfunc 1, Call_func 0, Call_dfunc 0])
   \<and> newton_raphson (observed Call_func shallow_line) (observed Call_dfunc shallow_slope) 5 None
      (Some 100) []
     = (Inl (ValueError DerivativeTooSmall), [Call_func 5, Call_dfunc 5])"
proof -
  have x1: "newton_iterate sq_plus_1 twice 1 (Suc 0) = 0"
    by (simp add: newton_update_def sq_plus_1_def twice_def)
  have in_range: "Suc 0 < nat 100"
    by simp
  have steps: "\<forall>j<Suc 0. 1 / 10 ^ 10 \<le> \<bar>twice (newton_iterate sq_plus_1 twice 1 j)\<bar>
      \<and> 1 / 10 ^ 6 \<le> \<bar>newton_iterate sq_plus_1 twice 1 (Suc j) - newton_iterate sq_plus_1 twice 1 j\<bar>"
    unfolding All_less_Suc x1 by (simp add: twice_def)
  have small: "\<bar>twice (newton_iterate sq_plus_1 twice 1 (Suc 0))\<bar> < 1 / 10 ^ 10"
    unfolding x1 by (simp add: twice_def)
  have tr: "[] @ trace sq_plus_1 twice 1 (Suc (Suc 0))
      = [Call_func 1, Call_dfunc 1, Call_func 0, Call_dfunc 0]"
    using x1 by simp
  have first: "observed Call_func shallow_line 5 [] = (Inr (shallow_line 5), [Call_func 5])
      \<and> observed Call_dfunc shallow_slope 5 [Call_func 5]
          = (Inr (shallow_slope 5), [Call_func 5, Call_dfunc 5])
      \<and> \<bar>shallow_slope 5\<bar> < 1 / 10 ^ 10"
    by (simp add: observed_def shallow_slope_def)
  note run = small_derivative_fails_immediately [OF in_range steps small,
      where cs = "[]" and func = "observed Call_func shallow_line" and x = 5 and s = "[]"
        and f_x = "shallow_line 5" and ?s1.0 = "[Call_func 5]"
        and dfunc = "observed Call_dfunc shallow_slope" and df_x = "shallow_slope 5"
        and ?s2.0 = "[Call_func 5, Call_dfunc 5]" and tol_arg = None]
  from run have "newton_raphson (observed Call_func sq_plus_1) (observed Call_dfunc twice) 1
      (Some (1 / 10 ^ 6)) (Some 100) []
     = (Inl (ValueError DerivativeTooSmall), [Call_func 1, Call_dfunc 1, Call_func 0, Call_dfunc 0])"
    unfolding tr by (rule conjunct1)
  moreover from run first have "newton_raphson (observed Call_func shallow_line)
      (observed Call_dfunc shallow_slope) 5 None (Some 100) []
     = (Inl (ValueError DerivativeTooSmall), [Call_func 5, Call_dfunc 5])"
    by blast
  ultimately show ?thesis
    by (rule conjI)
qed

text \<open>
  Claim C3. When every iteration of the range computes its update (the derivative at or
  above the floor) and none of the steps is below the tolerance, the call fails with
  the convergence failure that carries \<^verbatim>\<open>max_iter\<close>, after \<^verbatim>\<open>max_iter\<close> full
  iterations. With \<^verbatim>\<open>max_iter = 1\<close> this is a first step that misses the tolerance.
\<close>

theorem exhausted_iterations_fail:
  assumes "\<forall>j<nat max_iter. 1 / 10 ^ 10 \<le> \<bar>df (newton_iterate f df x0 j)\<bar>
              \<and> tol \<le> \<bar>newton_iterate f df x0 (Suc j) - newton_iterate f df x0 j\<bar>"
  shows "newton_raphson (observed Call_func f) (observed Call_dfunc df) x0 (Some tol) (Some max_iter) cs
           = (Inl (ValueError (ConvergenceFailure max_iter)), cs @ trace f df x0 (nat max_iter))"
proof -
  have n: "nat max_iter = nat max_iter + 0"
    by simp
  show ?thesis
    unfolding newton_raphson_observed_run [OF assms n]
    by (simp only: for_loop.simps prod.case option.case)
qed

text \<open>A run with \<^verbatim>\<open>max_iter = 1\<close>: \<open>x\<^sup>2 - 2\<close> from 1 steps by \<open>1/2\<close>.\<close>

theorem exhausted_iterations_fail_witness:
  "newton_raphson (observed Call_func sq_minus_2) (observed Call_dfunc twice) 1 (Some (1 / 10 ^ 6)) (Some 1) []
     = (Inl (ValueError (ConvergenceFailure 1)), [Call_func 1, Call_dfunc 1])"
proof -
  have x1: "newton_iterate sq_minus_2 twice 1 (Suc 0) = 3 / 2"
    by (simp add: newton_update_def sq_minus_2_def twice_def)
  have one: "nat 1 = Suc 0"
    by simp
  have steps: "\<forall>j<nat 1. 1 / 10 ^ 10 \<le> \<bar>twice (newton_iterate sq_minus_2 twice 1 j)\<bar>
      \<and> 1 / 10 ^ 6 \<le> \<bar>newton_iterate sq_minus_2 twice 1 (Suc j) - newton_iterate sq_minus_2 twice 1 j\<bar>"
    unfolding one All_less_Suc x1 by (simp add: twice_def)
  have tr: "[] @ trace sq_minus_2 twice 1 (nat 1) = [Call_func 1, Call_dfunc 1]"
    unfolding one by simp
  show ?thesis
    using exhausted_iterations_fail [OF steps, of "[]"]
    unfolding tr .
qed

subsection \<open>Seeding the solver with a root\<close>

text \<open>
  Claim C5 as stated asks only for \<open>f'(r) \<noteq> 0\<close>. The line of slope \<open>10\<^sup>-\<^sup>1\<^sup>1\<close> has the
  root 0 and a derivative that is not zero there, yet the call seeded with 0 fails: the
  derivative is below the floor.
\<close>

theorem root_seed_small_slope_counterexample:
  "shallow_line 0 = 0 \<and> shallow_slope 0 \<noteq> 0
   \<and> newton_raphson (observed Call_func shallow_line) (observed Call_dfunc shallow_slope) 0
        (Some (1 / 10 ^ 6)) (Some 100) []
      = (Inl (ValueError DerivativeTooSmall), [Call_func 0, Call_dfunc 0])"
proof -
  have small: "\<bar>shallow_slope 0\<bar> < derivative_floor"
    by (simp add: shallow_slope_def derivative_floor_def)
  have n: "nat 100 = Suc 99"
    by simp
  have "newton_raphson (observed Call_func shallow_line) (observed Call_dfunc shallow_slope) 0
        (Some (1 / 10 ^ 6)) (Some 100) []
      = (Inl (ValueError DerivativeTooSmall), [Call_func 0, Call_dfunc 0])"
    unfolding newton_raphson_def option.case Let_def n
      for_loop_observed_small_derivative [of shallow_slope 0, OF small]
    by (simp only: prod.case option.case append_Nil)
  then show ?thesis
    by (simp add: shallow_line_def shallow_slope_def)
qed

text \<open>
  Claim C5, amended: for a root \<open>r\<close> of \<open>f\<close> at which the derivative is at least the
  floor \<open>10\<^sup>-\<^sup>1\<^sup>0\<close> in absolute value, the call seeded with \<open>r\<close> returns \<open>r\<close> in its first
  iteration, for every positive tolerance and every positive \<^verbatim>\<open>max_iter\<close>.
\<close>

theorem root_seed_returns_root:
  assumes "f r = 0" and "1 / 10 ^ 10 \<le> \<bar>df r\<bar>" and "0 < tol" and "0 < max_iter"
  shows "newton_raphson (observed Call_func f) (observed Call_dfunc df) r (Some tol) (Some max_iter) cs
           = (Inr r, cs @ [Call_func r, Call_dfunc r])"
proof -
  obtain n where n: "nat max_iter = Suc n"
    using assms(4) by (cases "nat max_iter") simp_all
  have g: "derivative_floor \<le> \<bar>df r\<bar>"
    using assms(2) unfolding derivative_floor_def .
  have fixed: "newton_update f df r = r"
    by (simp add: newton_update_def assms(1))
  have st: "\<bar>newton_update f df r - r\<bar> < tol"
    unfolding fixed using assms(3) by simp
  show ?thesis
    unfolding newton_raphson_def option.case Let_def n for_loop_observed_return [OF g st] fixed
    by (simp only: prod.case option.case)
qed

text \<open>A run: \<open>\<surd>2\<close> is a root of \<open>x\<^sup>2 - 2\<close>, where the derivative is \<open>2\<surd>2\<close>.\<close>

theorem root_seed_returns_root_witness:
  "newton_raphson (observed Call_func sq_minus_2) (observed Call_dfunc twice) (sqrt 2) (Some (1 / 10 ^ 6))
      (Some 100) []
     = (Inr (sqrt 2), [Call_func (sqrt 2), Call_dfunc (sqrt 2)])"
proof -
  have root: "sq_minus_2 (sqrt 2) = 0"
    by (simp add: sq_minus_2_def)
  have "(1::real) / 10 ^ 10 \<le> 2 * 1"
    by simp
  also have "\<dots> \<le> 2 * sqrt 2"
    by (intro mult_left_mono) simp_all
  also have "\<dots> = \<bar>twice (sqrt 2)\<bar>"
    by (simp add: twice_def)
  finally have slope: "1 / 10 ^ 10 \<le> \<bar>twice (sqrt 2)\<bar>" .
  have tol: "(0::real) < 1 / 10 ^ 6" and range: "(0::int) < 100"
    by simp_all
  show ?thesis
    using root_seed_returns_root [of sq_minus_2 "sqrt 2" twice, OF root slope tol range, of "[]"]
    by (simp only: append_Nil)
qed

subsection \<open>The Rachford-Rice sums\<close>

text \<open>When no term raises, \<open>py_sum\<close> is the left fold of \<open>+\<close> over the terms, in order.\<close>

lemma py_sum_foldl:
  assumes "\<forall>i\<in>set is. gen i = Inr (g i)"
  shows "py_sum gen is acc = Inr (foldl (+) acc (map g is))"
  using assms by (induction "is" arbitrary: acc) simp_all

lemma foldl_upt_sum:
  "foldl (+) acc (map g [0..<n]) = acc + (\<Sum>i<n. g i)" for acc :: real
  by (induction n) simp_all

lemma rr_term_value:
  assumes "i < length z" and "length z = length K" and "1 + V * (K ! i - 1) \<noteq> 0"
  shows "rr_term z K V i = Inr (z ! i * (K ! i - 1) / (1 + V * (K ! i - 1)))"
  using assms by (simp add: rr_term_def and_then_def getitem_def truediv_def)

lemma d_rr_term_value:
  assumes "i < length z" and "length z = length K" and "1 + V * (K ! i - 1) \<noteq> 0"
  shows "d_rr_term z K V i = Inr (- (z ! i) * (K ! i - 1)\<^sup>2 / (1 + V * (K ! i - 1))\<^sup>2)"
  using assms by (simp add: d_rr_term_def and_then_def getitem_def truediv_def)

lemma rachford_rice_value:
  assumes "length z = length K" and "\<forall>i<length z. 1 + V * (K ! i - 1) \<noteq> 0"
  shows "rachford_rice z K V = Inr (foldl (+) 0
      (map (\<lambda>i. z ! i * (K ! i - 1) / (1 + V * (K ! i - 1))) [0..<length z]))"
proof -
  have "\<forall>i\<in>set [0..<length z].
      rr_term z K V i = Inr (z ! i * (K ! i - 1) / (1 + V * (K ! i - 1)))"
    using assms by (simp add: rr_term_value)
  then show ?thesis
    unfolding rachford_rice_def by (rule py_sum_foldl)
qed

lemma d_rachford_rice_value:
  assumes "length z = length K" and "\<forall>i<length z. 1 + V * (K ! i - 1) \<noteq> 0"
  shows "d_rachford_rice z K V = Inr (foldl (+) 0
      (map (\<lambda>i. - (z ! i) * (K ! i - 1)\<^sup>2 / (1 + V * (K ! i - 1))\<^sup>2) [0..<length z]))"
proof -
  have "\<forall>i\<in>set [0..<length z].
      d_rr_term z K V i = Inr (- (z ! i) * (K ! i - 1)\<^sup>2 / (1 + V * (K ! i - 1))\<^sup>2)"
    using assms by (simp add: d_rr_term_value)
  then show ?thesis
    unfolding d_rachford_rice_def by (rule py_sum_foldl)
qed

text \<open>
  Claim C4. For \<open>z\<close> and \<open>K\<close> of the same length and a \<open>V\<close> at which no denominator
  vanishes, both functions return the sums of the specification, and both add their
  terms from 0 in the order of the indices \<open>0, ..., len(z) - 1\<close>.
\<close>

theorem rachford_rice_sums:
  assumes "length z = length K" and "\<forall>i<length z. 1 + V * (K ! i - 1) \<noteq> 0"
  shows "rachford_rice z K V
           = Inr (\<Sum>i<length z. z ! i * (K ! i - 1) / (1 + V * (K ! i - 1)))
         \<and> d_rachford_rice z K V
           = Inr (\<Sum>i<length z. - (z ! i) * (K ! i - 1)\<^sup>2 / (1 + V * (K ! i - 1))\<^sup>2)
         \<and> rachford_rice z K V
           = Inr (foldl (+) 0
               (map (\<lambda>i. z ! i * (K ! i - 1) / (1 + V * (K ! i - 1))) [0..<length z]))
         \<and> d_rachford_rice z K V
           = Inr (foldl (+) 0
               (map (\<lambda>i. - (z ! i) * (K ! i - 1)\<^sup>2 / (1 + V * (K ! i - 1))\<^sup>2) [0..<length z]))"
  using rachford_rice_value [OF assms] d_rachford_rice_value [OF assms]
  by (simp only: foldl_upt_sum add_0)

text \<open>A run on the module's data at \<open>V = 0\<close>.\<close>

theorem rachford_rice_sums_witness:
  "rachford_rice z_data K_data 0 = Inr (16 / 125)
   \<and> d_rachford_rice z_data K_data 0 = Inr (- (66551 / 50000))"
proof -
  have len: "length z_data = length K_data"
    by (simp add: z_data_def K_data_def)
  have dom: "\<forall>i<length z_data. 1 + 0 * (K_data ! i - 1) \<noteq> 0"
    by simp
  have four: "length z_data = Suc (Suc (Suc (Suc 0)))"
    by (simp add: z_data_def)
  show ?thesis
    using rachford_rice_sums [OF len dom]
    unfolding four by (simp add: z_data_def K_data_def power2_eq_square)
qed

subsection \<open>Monotonicity of the Rachford-Rice objective\<close>

text \<open>
  A denominator \<open>1 + U c\<close> that vanishes nowhere between \<open>V\<close> and \<open>W\<close> has the same sign at
  both ends: it is linear in \<open>U\<close>.
\<close>

lemma denominator_same_sign:
  fixes c V W :: real
  assumes "V \<le> W" and nz: "\<forall>U. V \<le> U \<and> U \<le> W \<longrightarrow> 1 + U * c \<noteq> 0"
  shows "0 < (1 + V * c) * (1 + W * c)"
proof -
  have v: "1 + V * c \<noteq> 0" and w: "1 + W * c \<noteq> 0"
    using assms by auto
  have no_crossing: False if cross: "(1 + V * c) * (1 + W * c) < 0"
  proof -
    have c: "c \<noteq> 0"
      using cross v by (auto simp: mult_less_0_iff)
    let ?U = "- 1 / c"
    have zero: "1 + ?U * c = 0"
      using c by simp
    have "V \<le> ?U \<and> ?U \<le> W"
    proof (cases "0 < c")
      case True
      then have "V * c \<le> W * c"
        using assms(1) by (simp add: mult_right_mono)
      with cross have "1 + V * c < 0" "0 < 1 + W * c"
        by (auto simp: mult_less_0_iff)
      with True show ?thesis
        by (simp add: pos_le_minus_divide_eq pos_minus_divide_le_eq)
    next
      case False
      with c have neg: "c < 0"
        by simp
      then have "W * c \<le> V * c"
        using assms(1) by (simp add: mult_right_mono_neg)
      with cross have "0 < 1 + V * c" "1 + W * c < 0"
        by (auto simp: mult_less_0_iff)
      with neg show ?thesis
        by (simp add: neg_le_minus_divide_eq neg_minus_divide_le_eq)
    qed
    with nz zero show False
      by blast
  qed
  have "(1 + V * c) * (1 + W * c) \<noteq> 0"
    using v w by simp
  moreover have "\<not> (1 + V * c) * (1 + W * c) < 0"
    using no_crossing by (rule notI)
  ultimately show ?thesis
    by (simp only: not_less less_le) simp
qed

lemma rr_summand_antimono:
  fixes c zi V W :: real
  assumes "0 \<le> zi" and "V \<le> W" and nz: "\<forall>U. V \<le> U \<and> U \<le> W \<longrightarrow> 1 + U * c \<noteq> 0"
  shows "zi * c / (1 + W * c) \<le> zi * c / (1 + V * c)"
proof -
  have pos: "0 < (1 + V * c) * (1 + W * c)"
    using assms(2) nz by (rule denominator_same_sign)
  then have v: "1 + V * c \<noteq> 0" and w: "1 + W * c \<noteq> 0"
    by auto
  have "zi * c / (1 + V * c) - zi * c / (1 + W * c)
      = zi * c\<^sup>2 * (W - V) / ((1 + V * c) * (1 + W * c))"
    using v w by (simp add: field_simps power2_eq_square)
  also have "0 \<le> \<dots>"
    using assms(1,2) pos by (intro divide_nonneg_pos mult_nonneg_nonneg) simp_all
  finally show ?thesis
    by simp
qed

lemma d_rr_summand_nonpositive:
  fixes c zi V :: real
  assumes "0 \<le> zi"
  shows "- zi * c\<^sup>2 / (1 + V * c)\<^sup>2 \<le> 0"
proof -
  have "0 \<le> zi * c\<^sup>2 / (1 + V * c)\<^sup>2"
    using assms by (intro divide_nonneg_nonneg mult_nonneg_nonneg) simp_all
  then show ?thesis
    by simp
qed

text \<open>
  Claim C10. For mole fractions that are not negative and a \<open>V\<close> at which no denominator
  vanishes, every summand of the derivative is at most 0 and so is the value that
  \<^verbatim>\<open>d_rachford_rice\<close> returns. Accordingly the objective does not increase along an
  interval of its domain: from \<open>V\<close> to any \<open>W \<ge> V\<close> with no denominator vanishing in
  between, the value of \<^verbatim>\<open>rachford_rice\<close> at \<open>W\<close> is at most its value at \<open>V\<close>.
\<close>

theorem d_rachford_rice_nonpositive:
  assumes "length z = length K" and "\<forall>i<length z. 0 \<le> z ! i"
    and "\<forall>i<length z. 1 + V * (K ! i - 1) \<noteq> 0"
  shows "(\<forall>i<length z. - (z ! i) * (K ! i - 1)\<^sup>2 / (1 + V * (K ! i - 1))\<^sup>2 \<le> 0)
       \<and> (\<exists>d. d_rachford_rice z K V = Inr d \<and> d \<le> 0)
       \<and> (\<forall>W. V \<le> W \<and> (\<forall>U. V \<le> U \<and> U \<le> W \<longrightarrow> (\<forall>i<length z. 1 + U * (K ! i - 1) \<noteq> 0))
            \<longrightarrow> (\<exists>y y'. rachford_rice z K V = Inr y \<and> rachford_rice z K W = Inr y' \<and> y' \<le> y))"
proof (intro conjI allI impI)
  fix i assume "i < length z"
  with assms(2) show "- (z ! i) * (K ! i - 1)\<^sup>2 / (1 + V * (K ! i - 1))\<^sup>2 \<le> 0"
    by (simp only: d_rr_summand_nonpositive)
next
  have "(\<Sum>i<length z. - (z ! i) * (K ! i - 1)\<^sup>2 / (1 + V * (K ! i - 1))\<^sup>2) \<le> 0"
    using assms(2) by (intro sum_nonpos) (simp only: d_rr_summand_nonpositive lessThan_iff)
  then show "\<exists>d. d_rachford_rice z K V = Inr d \<and> d \<le> 0"
    unfolding d_rachford_rice_value [OF assms(1,3)] foldl_upt_sum by simp
next
  fix W
  assume W: "V \<le> W \<and> (\<forall>U. V \<le> U \<and> U \<le> W \<longrightarrow> (\<forall>i<length z. 1 + U * (K ! i - 1) \<noteq> 0))"
  then have at_W: "\<forall>i<length z. 1 + W * (K ! i - 1) \<noteq> 0"
    by simp
  have "(\<Sum>i<length z. z ! i * (K ! i - 1) / (1 + W * (K ! i - 1)))
      \<le> (\<Sum>i<length z. z ! i * (K ! i - 1) / (1 + V * (K ! i - 1)))"
  proof (rule sum_mono)
    fix i assume "i \<in> {..<length z}"
    then have i: "i < length z"
      by simp
    from W i have "\<forall>U. V \<le> U \<and> U \<le> W \<longrightarrow> 1 + U * (K ! i - 1) \<noteq> 0"
      by blast
    with assms(2) i W show "z ! i * (K ! i - 1) / (1 + W * (K ! i - 1))
        \<le> z ! i * (K ! i - 1) / (1 + V * (K ! i - 1))"
      by (intro rr_summand_antimono) simp_all
  qed
  then show "\<exists>y y'. rachford_rice z K V = Inr y \<and> rachford_rice z K W = Inr y' \<and> y' \<le> y"
    unfolding rachford_rice_value [OF assms(1,3)] rachford_rice_value [OF assms(1) at_W]
      foldl_upt_sum by simp
qed

text \<open>
  The module's data: between \<open>1/(1 - 4.2) = - 5/16\<close> and \<open>1/(1 - 0.34) = 50/33\<close> every
  denominator is positive.
\<close>

lemma module_lengths: "length z_data = length K_data"
  by (simp add: z_data_def K_data_def)

lemma module_length_z: "length z_data = Suc (Suc (Suc (Suc 0)))"
  by (simp add: z_data_def)

lemma module_z_nonneg: "\<forall>i<length z_data. 0 \<le> z_data ! i"
  unfolding module_length_z All_less_Suc by (simp add: z_data_def)

lemma module_denominators_pos:
  assumes "- (5 / 16) < U" and "U < 50 / 33"
  shows "\<forall>i<length z_data. 0 < 1 + U * (K_data ! i - 1)"
  unfolding module_length_z All_less_Suc using assms by (simp add: K_data_def)

lemma module_denominators:
  assumes "- (5 / 16) < U" and "U < 50 / 33"
  shows "\<forall>i<length z_data. 1 + U * (K_data ! i - 1) \<noteq> 0"
  using module_denominators_pos [OF assms] by fastforce

text \<open>A run of C10 on the module's data, from \<open>V = 0\<close> to \<open>W = 1/10\<close>.\<close>

theorem d_rachford_rice_nonpositive_witness:
  "- (z_data ! 0) * (K_data ! 0 - 1)\<^sup>2 / (1 + 0 * (K_data ! 0 - 1))\<^sup>2 \<le> 0
   \<and> (\<exists>d. d_rachford_rice z_data K_data 0 = Inr d \<and> d \<le> 0)
   \<and> (\<exists>y y'. rachford_rice z_data K_data 0 = Inr y
          \<and> rachford_rice z_data K_data (1 / 10) = Inr y' \<and> y' \<le> y)"
proof -
  have at_0: "\<forall>i<length z_data. 1 + 0 * (K_data ! i - 1) \<noteq> 0"
    by simp
  have between: "(0::real) \<le> 1 / 10 \<and> (\<forall>U. 0 \<le> U \<and> U \<le> 1 / 10 \<longrightarrow>
      (\<forall>i<length z_data. 1 + U * (K_data ! i - 1) \<noteq> 0))"
  proof (intro conjI allI impI)
    fix U :: real and i
    assume "0 \<le> U \<and> U \<le> 1 / 10" and "i < length z_data"
    then show "1 + U * (K_data ! i - 1) \<noteq> 0"
      using module_denominators [of U] by simp
  qed simp
  have first: "0 < length z_data"
    by (simp add: z_data_def)
  note run = d_rachford_rice_nonpositive [OF module_lengths module_z_nonneg at_0]
  from run first have "- (z_data ! 0) * (K_data ! 0 - 1)\<^sup>2 / (1 + 0 * (K_data ! 0 - 1))\<^sup>2 \<le> 0"
    by blast
  moreover from run have "\<exists>d. d_rachford_rice z_data K_data 0 = Inr d \<and> d \<le> 0"
    by blast
  moreover from run between have "\<exists>y y'. rachford_rice z_data K_data 0 = Inr y
      \<and> rachford_rice z_data K_data (1 / 10) = Inr y' \<and> y' \<le> y"
    by blast
  ultimately show ?thesis
    by (intro conjI)
qed

subsection \<open>The square root of two\<close>

lemma newton_raphson_defaults:
  "newton_raphson func dfunc x0 None None s
     = newton_raphson func dfunc x0 (Some (1 / 10 ^ 6)) (Some 100) s"
  by (simp add: newton_raphson_def tol_default_def max_iter_default_def)

text \<open>The Newton sequence of \<open>x\<^sup>2 - 2\<close> from 1.\<close>

lemma sqrt2_update: "x \<noteq> 0 \<Longrightarrow> newton_update sq_minus_2 twice x = (x\<^sup>2 + 2) / (2 * x)"
  by (simp add: newton_update_def sq_minus_2_def twice_def field_simps power2_eq_square)

lemma sqrt2_x1: "newton_iterate sq_minus_2 twice 1 (Suc 0) = 3 / 2"
  by (simp add: sqrt2_update)

lemma sqrt2_x2: "newton_iterate sq_minus_2 twice 1 (Suc (Suc 0)) = 17 / 12"
  unfolding newton_iterate.simps(2) [of _ _ _ "Suc 0"] sqrt2_x1
  by (simp add: sqrt2_update power2_eq_square)

lemma sqrt2_x3: "newton_iterate sq_minus_2 twice 1 (Suc (Suc (Suc 0))) = 577 / 408"
  unfolding newton_iterate.simps(2) [of _ _ _ "Suc (Suc 0)"] sqrt2_x2
  by (simp add: sqrt2_update power2_eq_square)

lemma sqrt2_x4: "newton_iterate sq_minus_2 twice 1 (Suc (Suc (Suc (Suc 0)))) = 665857 / 470832"
  unfolding newton_iterate.simps(2) [of _ _ _ "Suc (Suc (Suc 0))"] sqrt2_x3
  by (simp add: sqrt2_update power2_eq_square)

lemma sqrt2_x5:
  "newton_iterate sq_minus_2 twice 1 (Suc (Suc (Suc (Suc (Suc 0))))) = 886731088897 / 627013566048"
  unfolding newton_iterate.simps(2) [of _ _ _ "Suc (Suc (Suc (Suc 0)))"] sqrt2_x4
  by (simp add: sqrt2_update power2_eq_square)

lemma sqrt2_x5_close: "\<bar>886731088897 / 627013566048 - sqrt 2\<bar> < 1 / 10 ^ 6"
proof -
  have "sqrt 2 < 886731088897 / 627013566048"
    by (rule real_less_lsqrt) (simp_all add: power2_eq_square)
  moreover have "886731088897 / 627013566048 - 1 / 10 ^ 6 < sqrt 2"
    by (rule real_less_rsqrt) (simp add: power2_eq_square)
  ultimately show ?thesis
    by (simp add: abs_less_iff)
qed

text \<open>
  Claim C7. For \<open>f(x) = x\<^sup>2 - 2\<close>, \<open>f'(x) = 2x\<close> and \<open>x0 = 1\<close>, the call with the default
  tolerance and iteration bound returns in its fifth iteration; the value it returns,
  \<open>886731088897/627013566048\<close>, is within \<open>10\<^sup>-\<^sup>6\<close> of \<open>\<surd>2\<close>, and fewer than 10
  iterations were started.
\<close>

theorem sqrt2_converges:
  "newton_raphson (observed Call_func sq_minus_2) (observed Call_dfunc twice) 1 None None []
     = (Inr (886731088897 / 627013566048),
        [Call_func 1, Call_dfunc 1, Call_func (3 / 2), Call_dfunc (3 / 2),
         Call_func (17 / 12), Call_dfunc (17 / 12), Call_func (577 / 408), Call_dfunc (577 / 408),
         Call_func (665857 / 470832), Call_dfunc (665857 / 470832)])
   \<and> \<bar>886731088897 / 627013566048 - sqrt 2\<bar> < 1 / 10 ^ 6
   \<and> iterations (snd (newton_raphson (observed Call_func sq_minus_2) (observed Call_dfunc twice)
          1 None None [])) < 10"
proof -
  let ?x = "newton_iterate sq_minus_2 twice 1"
  have steps: "\<forall>j<Suc (Suc (Suc (Suc 0))). 1 / 10 ^ 10 \<le> \<bar>twice (?x j)\<bar>
      \<and> 1 / 10 ^ 6 \<le> \<bar>?x (Suc j) - ?x j\<bar>"
    unfolding All_less_Suc sqrt2_x1 sqrt2_x2 sqrt2_x3 sqrt2_x4
    by (simp add: twice_def)
  have range: "nat 100 = Suc (Suc (Suc (Suc 0))) + Suc 95"
    by simp
  have guard: "derivative_floor \<le> \<bar>twice (?x (Suc (Suc (Suc (Suc 0)))))\<bar>"
    unfolding sqrt2_x4 by (simp add: twice_def derivative_floor_def)
  have last: "newton_update sq_minus_2 twice (?x (Suc (Suc (Suc (Suc 0)))))
      = ?x (Suc (Suc (Suc (Suc (Suc 0)))))"
    by simp
  have step: "\<bar>newton_update sq_minus_2 twice (?x (Suc (Suc (Suc (Suc 0)))))
      - ?x (Suc (Suc (Suc (Suc 0))))\<bar> < 1 / 10 ^ 6"
  proof -
    have "\<bar>?x (Suc (Suc (Suc (Suc (Suc 0))))) - ?x (Suc (Suc (Suc (Suc 0))))\<bar> < 1 / 10 ^ 6"
      unfolding sqrt2_x4 sqrt2_x5 by simp
    then show ?thesis
      by (simp only: last)
  qed
  have log: "[] @ trace sq_minus_2 twice 1 (Suc (Suc (Suc (Suc 0)))) @
      [Call_func (?x (Suc (Suc (Suc (Suc 0))))), Call_dfunc (?x (Suc (Suc (Suc (Suc 0)))))]
      = [Call_func 1, Call_dfunc 1, Call_func (3 / 2), Call_dfunc (3 / 2),
         Call_func (17 / 12), Call_dfunc (17 / 12), Call_func (577 / 408), Call_dfunc (577 / 408),
         Call_func (665857 / 470832), Call_dfunc (665857 / 470832)]"
    unfolding trace.simps sqrt2_x1 sqrt2_x2 sqrt2_x3 sqrt2_x4 by simp
  have run: "newton_raphson (observed Call_func sq_minus_2) (observed Call_dfunc twice) 1 None None []
     = (Inr (886731088897 / 627013566048),
        [Call_func 1, Call_dfunc 1, Call_func (3 / 2), Call_dfunc (3 / 2),
         Call_func (17 / 12), Call_dfunc (17 / 12), Call_func (577 / 408), Call_dfunc (577 / 408),
         Call_func (665857 / 470832), Call_dfunc (665857 / 470832)])"
    unfolding newton_raphson_defaults newton_raphson_observed_run [OF steps range]
      for_loop_observed_return [OF guard step]
    unfolding last sqrt2_x5
    by (simp only: prod.case option.case append_assoc log)
  have count: "iterations (snd (newton_raphson (observed Call_func sq_minus_2) (observed Call_dfunc twice)
          1 None None [])) < 10"
    unfolding run by (simp add: iterations_def)
  show ?thesis
    using run sqrt2_x5_close count by (intro conjI)
qed

subsection \<open>The flash calculation of the module\<close>

lemma module_values:
  assumes "- (5 / 16) < V" and "V < 50 / 33"
  shows "rachford_rice z_data K_data V = Inr (rr_objective V)"
    and "d_rachford_rice z_data K_data V = Inr (- rr_steepness V V)"
proof -
  note dom = module_denominators [OF assms]
  have idx: "[0..<Suc (Suc (Suc (Suc 0)))] = [0, Suc 0, Suc (Suc 0), Suc (Suc (Suc 0))]"
    by (simp add: upt_rec)
  show "rachford_rice z_data K_data V = Inr (rr_objective V)"
    unfolding rachford_rice_value [OF module_lengths dom] module_length_z idx
    by (simp add: z_data_def K_data_def rr_objective_def)
  show "d_rachford_rice z_data K_data V = Inr (- rr_steepness V V)"
    unfolding d_rachford_rice_value [OF module_lengths dom] module_length_z idx
    by (simp add: z_data_def K_data_def rr_steepness_def power_divide mult.commute)
qed

text \<open>
  On \<open>[0, 1]\<close> the objective falls, and the steepness falls in its first argument and
  rises in its second.
\<close>

lemma inverse_square_antimono:
  fixes p q c :: real
  assumes "0 < q" and "q \<le> p" and "0 \<le> c"
  shows "c / p\<^sup>2 \<le> c / q\<^sup>2"
proof -
  have "q\<^sup>2 \<le> p\<^sup>2"
    using assms(1,2) by (intro power_mono) simp_all
  moreover have "0 < p\<^sup>2 * q\<^sup>2"
    using assms(1,2) by simp
  ultimately show ?thesis
    using assms(3) by (intro divide_left_mono)
qed

lemma rr_objective_antimono:
  assumes "0 \<le> a" and "a \<le> b" and "b \<le> 1"
  shows "rr_objective b \<le> rr_objective a"
proof -
  have t1: "8 / 25 / (1 + 16 / 5 * b) \<le> 8 / 25 / (1 + 16 / 5 * a)"
    using assms by (intro divide_left_mono mult_pos_pos) simp_all
  have t2: "3 / 20 / (1 + 3 / 4 * b) \<le> 3 / 20 / (1 + 3 / 4 * a)"
    using assms by (intro divide_left_mono mult_pos_pos) simp_all
  have t3: "39 / 500 / (1 - 13 / 50 * a) \<le> 39 / 500 / (1 - 13 / 50 * b)"
    using assms by (intro divide_left_mono mult_pos_pos) simp_all
  have t4: "33 / 125 / (1 - 33 / 50 * a) \<le> 33 / 125 / (1 - 33 / 50 * b)"
    using assms by (intro divide_left_mono mult_pos_pos) simp_all
  show ?thesis
    unfolding rr_objective_def using t1 t2 t3 t4 by linarith
qed

lemma rr_steepness_mono:
  assumes "0 \<le> U'" and "U' \<le> U" and "0 \<le> V" and "V \<le> V'" and "V' \<le> 1"
  shows "rr_steepness U V \<le> rr_steepness U' V'"
proof -
  have t1: "128 / 125 / (1 + 16 / 5 * U)\<^sup>2 \<le> 128 / 125 / (1 + 16 / 5 * U')\<^sup>2"
    using assms by (intro inverse_square_antimono) simp_all
  have t2: "9 / 80 / (1 + 3 / 4 * U)\<^sup>2 \<le> 9 / 80 / (1 + 3 / 4 * U')\<^sup>2"
    using assms by (intro inverse_square_antimono) simp_all
  have t3: "507 / 25000 / (1 - 13 / 50 * V)\<^sup>2 \<le> 507 / 25000 / (1 - 13 / 50 * V')\<^sup>2"
    using assms by (intro inverse_square_antimono) simp_all
  have t4: "1089 / 6250 / (1 - 33 / 50 * V)\<^sup>2 \<le> 1089 / 6250 / (1 - 33 / 50 * V')\<^sup>2"
    using assms by (intro inverse_square_antimono) simp_all
  show ?thesis
    unfolding rr_steepness_def using t1 t2 t3 t4 by linarith
qed

text \<open>Bounds of the Newton step \<open>g / D\<close> from bounds of \<open>g\<close> and of \<open>D > 0\<close>.\<close>

lemma quotient_between:
  fixes g D :: real
  assumes "0 \<le> glo" and "glo \<le> g" and "g \<le> ghi" and "0 < dlo" and "dlo \<le> D" and "D \<le> dhi"
  shows "glo / dhi \<le> g / D" and "g / D \<le> ghi / dlo"
proof -
  show "glo / dhi \<le> g / D"
    using assms by (intro frac_le) simp_all
  show "g / D \<le> ghi / dlo"
    using assms by (intro frac_le) simp_all
qed

lemma quotient_small:
  fixes g D :: real
  assumes "- m \<le> g" and "g \<le> m" and "0 < dlo" and "dlo \<le> D"
  shows "\<bar>g / D\<bar> \<le> m / dlo"
proof -
  have "\<bar>g\<bar> \<le> m"
    using assms(1,2) by simp
  moreover have "0 \<le> \<bar>g\<bar>"
    by simp
  ultimately have "\<bar>g\<bar> / D \<le> m / dlo"
    using assms(3,4) by (intro frac_le) simp_all
  moreover have "\<bar>D\<bar> = D"
    using assms(3,4) by simp
  ultimately show ?thesis
    by (simp only: abs_divide)
qed

text \<open>One iteration of the loop on the module's functions, away from the poles.\<close>

lemma module_for_loop_step:
  assumes "- (5 / 16) < x" and "x < 50 / 33" and "derivative_floor \<le> rr_steepness x x"
  shows "for_loop (stateless (rachford_rice z_data K_data))
            (stateless (d_rachford_rice z_data K_data)) tol (Suc n) x s
         = (if \<bar>rr_objective x / rr_steepness x x\<bar> < tol
            then (Some (Inr (x + rr_objective x / rr_steepness x x)), s)
            else for_loop (stateless (rachford_rice z_data K_data))
                   (stateless (d_rachford_rice z_data K_data)) tol n
                   (x + rr_objective x / rr_steepness x x) s)"
proof -
  have "0 < rr_steepness x x"
    using assms(3) by (simp add: derivative_floor_def)
  then show ?thesis
    using assms(3) by (simp add: stateless_def module_values [OF assms(1,2)] truediv_def)
qed

text \<open>
  A stage of the run: from an enclosure \<open>[a, b]\<close> of the iterate and bounds of the
  objective and of the steepness on it, the step misses the tolerance, the loop goes on,
  and the next iterate lies in \<open>[a', b']\<close>.
\<close>

lemma module_stage:
  assumes x: "a \<le> x" "x \<le> b" and ab: "0 \<le> a" "b \<le> 1"
    and g: "0 \<le> glo" "glo \<le> rr_objective b" "rr_objective a \<le> ghi"
    and d: "derivative_floor \<le> dlo" "dlo \<le> rr_steepness b a" "rr_steepness a b \<le> dhi"
    and far: "tol \<le> glo / dhi"
    and nxt: "a' \<le> a + glo / dhi" "b + ghi / dlo \<le> b'"
  shows "for_loop (stateless (rachford_rice z_data K_data)) (stateless (d_rachford_rice z_data K_data)) tol (Suc n) x s
         = for_loop (stateless (rachford_rice z_data K_data)) (stateless (d_rachford_rice z_data K_data)) tol n (x + rr_objective x / rr_steepness x x) s"
    and "a' \<le> x + rr_objective x / rr_steepness x x"
    and "x + rr_objective x / rr_steepness x x \<le> b'"
proof -
  have dlo: "0 < dlo"
    using d(1) by (simp add: derivative_floor_def)
  have gx: "glo \<le> rr_objective x" "rr_objective x \<le> ghi"
    using rr_objective_antimono [of x b] rr_objective_antimono [of a x] x ab g by linarith+
  have dx: "dlo \<le> rr_steepness x x" "rr_steepness x x \<le> dhi"
    using rr_steepness_mono [of x b a x] rr_steepness_mono [of a x x b] x ab d by linarith+
  note q = quotient_between [OF g(1) gx dlo dx]
  have dom: "- (5 / 16) < x" "x < 50 / 33"
    using x ab by linarith+
  have floor: "derivative_floor \<le> rr_steepness x x"
    using d(1) dx(1) by linarith
  have "\<not> \<bar>rr_objective x / rr_steepness x x\<bar> < tol"
    using q(1) far by linarith
  then show "for_loop (stateless (rachford_rice z_data K_data)) (stateless (d_rachford_rice z_data K_data)) tol (Suc n) x s
         = for_loop (stateless (rachford_rice z_data K_data)) (stateless (d_rachford_rice z_data K_data)) tol n (x + rr_objective x / rr_steepness x x) s"
    unfolding module_for_loop_step [OF dom floor] by simp
  show "a' \<le> x + rr_objective x / rr_steepness x x"
    using q(1) x(1) nxt(1) by linarith
  show "x + rr_objective x / rr_steepness x x \<le> b'"
    using q(2) x(2) nxt(2) by linarith
qed

text \<open>The last stage: the step is below the tolerance and the loop returns.\<close>

lemma module_last_stage:
  assumes x: "a \<le> x" "x \<le> b" and ab: "0 \<le> a" "b \<le> 1"
    and g: "- m \<le> rr_objective b" "rr_objective a \<le> m"
    and d: "derivative_floor \<le> dlo" "dlo \<le> rr_steepness b a"
    and near: "m / dlo < tol"
  shows "for_loop (stateless (rachford_rice z_data K_data)) (stateless (d_rachford_rice z_data K_data)) tol (Suc n) x s
         = (Some (Inr (x + rr_objective x / rr_steepness x x)), s)"
    and "\<bar>rr_objective x / rr_steepness x x\<bar> < tol"
proof -
  have dlo: "0 < dlo"
    using d(1) by (simp add: derivative_floor_def)
  have gx: "- m \<le> rr_objective x" "rr_objective x \<le> m"
    using rr_objective_antimono [of x b] rr_objective_antimono [of a x] x ab g by linarith+
  have dx: "dlo \<le> rr_steepness x x"
    using rr_steepness_mono [of x b a x] x ab d by linarith
  have dom: "- (5 / 16) < x" "x < 50 / 33"
    using x ab by linarith+
  have floor: "derivative_floor \<le> rr_steepness x x"
    using d(1) dx by linarith
  show small: "\<bar>rr_objective x / rr_steepness x x\<bar> < tol"
    using quotient_small [OF gx dlo dx] near by linarith
  show "for_loop (stateless (rachford_rice z_data K_data)) (stateless (d_rachford_rice z_data K_data)) tol (Suc n) x s
         = (Some (Inr (x + rr_objective x / rr_steepness x x)), s)"
    unfolding module_for_loop_step [OF dom floor] using small by simp
qed

lemma module_numbers_0:
  shows "16 / 125 \<le> rr_objective (0)"
    and "rr_objective (0) \<le> 16 / 125"
    and "66551 / 50000 \<le> rr_steepness (0) (0)"
    and "rr_steepness (0) (0) \<le> 66551 / 50000"
    and "(1::real) / 10 ^ 6 \<le> 16 / 125 / (66551 / 50000)"
    and "(480834247 / 5000000000 :: real) \<le> 0 + 16 / 125 / (66551 / 50000)"
    and "(0 :: real) + 16 / 125 / (66551 / 50000) \<le> 192333699 / 2000000000"
  by (simp_all add: rr_objective_def rr_steepness_def power2_eq_square)

lemma module_numbers_1:
  shows "227151596531 / 10000000000000 \<le> rr_objective (192333699 / 2000000000)"
    and "rr_objective (480834247 / 5000000000) \<le> 28393949681 / 1250000000000"
    and "9166350891 / 10000000000 \<le> rr_steepness (192333699 / 2000000000) (480834247 / 5000000000)"
    and "rr_steepness (480834247 / 5000000000) (192333699 / 2000000000) \<le> 572896931 / 625000000"
    and "(1::real) / 10 ^ 6 \<le> 227151596531 / 10000000000000 / (572896931 / 625000000)"
    and "(302369693 / 2500000000 :: real) \<le> 480834247 / 5000000000 + 227151596531 / 10000000000000 / (572896931 / 625000000)"
    and "(192333699 / 2000000000 :: real) + 28393949681 / 1250000000000 / (9166350891 / 10000000000) \<le> 48379151 / 400000000"
  by (simp_all add: rr_objective_def rr_steepness_def power2_eq_square)

lemma module_numbers_2:
  shows "249573823 / 312500000000 \<le> rr_objective (48379151 / 400000000)"
    and "rr_objective (302369693 / 2500000000) \<le> 7986364899 / 10000000000000"
    and "4271144513 / 5000000000 \<le> rr_steepness (48379151 / 400000000) (302369693 / 2500000000)"
    and "rr_steepness (302369693 / 2500000000) (48379151 / 400000000) \<le> 2135572259 / 2500000000"
    and "(1::real) / 10 ^ 6 \<le> 249573823 / 312500000000 / (2135572259 / 2500000000)"
    and "(609413989 / 5000000000 :: real) \<le> 302369693 / 2500000000 + 249573823 / 312500000000 / (2135572259 / 2500000000)"
    and "(48379151 / 400000000 :: real) + 7986364899 / 10000000000000 / (4271144513 / 5000000000) \<le> 243765597 / 2000000000"
  by (simp_all add: rr_objective_def rr_steepness_def power2_eq_square)

lemma module_numbers_3:
  shows "2483391 / 2500000000000 \<le> rr_objective (243765597 / 2000000000)"
    and "rr_objective (609413989 / 5000000000) \<le> 9939529 / 10000000000000"
    and "8521058397 / 10000000000 \<le> rr_steepness (243765597 / 2000000000) (609413989 / 5000000000)"
    and "rr_steepness (609413989 / 5000000000) (243765597 / 2000000000) \<le> 4260529209 / 5000000000"
    and "(1::real) / 10 ^ 6 \<le> 2483391 / 2500000000000 / (4260529209 / 5000000000)"
    and "(243767927 / 2000000000 :: real) \<le> 609413989 / 5000000000 + 2483391 / 2500000000000 / (4260529209 / 5000000000)"
    and "(243765597 / 2000000000 :: real) + 9939529 / 10000000000000 / (8521058397 / 10000000000) \<le> 24376793 / 200000000"
  by (simp_all add: rr_objective_def rr_steepness_def power2_eq_square)

lemma module_numbers_4:
  shows "- (6547 / 10000000000000) \<le> rr_objective (24376793 / 200000000)"
    and "rr_objective (243767927 / 2000000000) \<le> 6547 / 10000000000000"
    and "4260516001 / 5000000000 \<le> rr_steepness (24376793 / 200000000) (243767927 / 2000000000)"
    and "(6547 / 10000000000000 :: real) / (4260516001 / 5000000000) < 1 / 10 ^ 6"
  by (simp_all add: rr_objective_def rr_steepness_def power2_eq_square)

lemma module_numbers_5:
  shows "- (1 / 10 ^ 5) < rr_objective (24376993 / 200000000)"
    and "rr_objective (243765927 / 2000000000) < 1 / 10 ^ 5"
  by (simp_all add: rr_objective_def)

lemma module_K_extremes: "Max (set K_data) = 42 / 10" "Min (set K_data) = 34 / 100"
  by (simp_all add: K_data_def)

text \<open>
  Claim C6. On the module's data, from \<open>V0 = 0\<close> with the default tolerance and
  iteration bound, the call succeeds (in its fifth iteration) and returns a vapor
  fraction \<open>V\<close> between \<open>0.1218829635\<close> and \<open>0.121884965\<close>. At this \<open>V\<close> the objective of
  the specification, the sum of \<open>z\<^sub>i (K\<^sub>i - 1) / (1 + V (K\<^sub>i - 1))\<close> over the components, is
  below \<open>10\<^sup>-\<^sup>5\<close> in absolute value; it is the value that \<^verbatim>\<open>rachford_rice\<close> returns
  there. And \<open>V\<close> lies strictly between \<open>1/(1 - K\<^sub>m\<^sub>a\<^sub>x)\<close> and \<open>1/(1 - K\<^sub>m\<^sub>i\<^sub>n)\<close>.
\<close>

theorem rachford_rice_scenario:
  "\<exists>V. V_solution = Inr V
      \<and> 243765927 / 2000000000 \<le> V \<and> V \<le> 24376993 / 200000000
      \<and> \<bar>\<Sum>i<length z_data. z_data ! i * (K_data ! i - 1) / (1 + V * (K_data ! i - 1))\<bar>
            < 1 / 10 ^ 5
      \<and> rachford_rice z_data K_data V
            = Inr (\<Sum>i<length z_data. z_data ! i * (K_data ! i - 1) / (1 + V * (K_data ! i - 1)))
      \<and> 1 / (1 - Max (set K_data)) < V \<and> V < 1 / (1 - Min (set K_data))"
proof -
  let ?N = "\<lambda>x. x + rr_objective x / rr_steepness x x"
  define x1 where "x1 = ?N 0"
  define x2 where "x2 = ?N x1"
  define x3 where "x3 = ?N x2"
  define x4 where "x4 = ?N x3"
  define x5 where "x5 = ?N x4"
  have floor: "derivative_floor \<le> DLO" if "1 / 2 \<le> DLO" for DLO :: real
    using that by (simp add: derivative_floor_def)
  have range: "nat 100 = Suc (Suc (Suc (Suc (Suc 95))))"
    by simp
  note s0 = module_stage [where x = "0::real" and a = "0" and b = "0"
      and glo = "16 / 125" and ghi = "16 / 125"
      and dlo = "66551 / 50000" and dhi = "66551 / 50000"
      and tol = "1 / 10 ^ 6" and a' = "480834247 / 5000000000" and b' = "192333699 / 2000000000",
      OF order_refl order_refl _ _ _ module_numbers_0(1,2) floor module_numbers_0(3,4,5,6,7),
      folded x1_def]
  have e1: "480834247 / 5000000000 \<le> x1" "x1 \<le> 192333699 / 2000000000"
    using s0(2,3) by simp_all
  have l0: "for_loop (stateless (rachford_rice z_data K_data)) (stateless (d_rachford_rice z_data K_data)) (1 / 10 ^ 6) (Suc n) 0 ()
      = for_loop (stateless (rachford_rice z_data K_data)) (stateless (d_rachford_rice z_data K_data)) (1 / 10 ^ 6) n x1 ()" for n
    using s0(1) by simp
  note s1 = module_stage [where x = x1 and a = "480834247 / 5000000000" and b = "192333699 / 2000000000"
      and glo = "227151596531 / 10000000000000" and ghi = "28393949681 / 1250000000000"
      and dlo = "9166350891 / 10000000000" and dhi = "572896931 / 625000000"
      and tol = "1 / 10 ^ 6" and a' = "302369693 / 2500000000" and b' = "48379151 / 400000000",
      OF e1 _ _ _ module_numbers_1(1,2) floor module_numbers_1(3,4,5,6,7),
      folded x2_def]
  have e2: "302369693 / 2500000000 \<le> x2" "x2 \<le> 48379151 / 400000000"
    using s1(2,3) by simp_all
  have l1: "for_loop (stateless (rachford_rice z_data K_data)) (stateless (d_rachford_rice z_data K_data)) (1 / 10 ^ 6) (Suc n) x1 ()
      = for_loop (stateless (rachford_rice z_data K_data)) (stateless (d_rachford_rice z_data K_data)) (1 / 10 ^ 6) n x2 ()" for n
    using s1(1) by simp
  note s2 = module_stage [where x = x2 and a = "302369693 / 2500000000" and b = "48379151 / 400000000"
      and glo = "249573823 / 312500000000" and ghi = "7986364899 / 10000000000000"
      and dlo = "4271144513 / 5000000000" and dhi = "2135572259 / 2500000000"
      and tol = "1 / 10 ^ 6" and a' = "609413989 / 5000000000" and b' = "243765597 / 2000000000",
      OF e2 _ _ _ module_numbers_2(1,2) floor module_numbers_2(3,4,5,6,7),
      folded x3_def]
  have e3: "609413989 / 5000000000 \<le> x3" "x3 \<le> 243765597 / 2000000000"
    using s2(2,3) by simp_all
  have l2: "for_loop (stateless (rachford_rice z_data K_data)) (stateless (d_rachford_rice z_data K_data)) (1 / 10 ^ 6) (Suc n) x2 ()
      = for_loop (stateless (rachford_rice z_data K_data)) (stateless (d_rachford_rice z_data K_data)) (1 / 10 ^ 6) n x3 ()" for n
    using s2(1) by simp
  note s3 = module_stage [where x = x3 and a = "609413989 / 5000000000" and b = "243765597 / 2000000000"
      and glo = "2483391 / 2500000000000" and ghi = "9939529 / 10000000000000"
      and dlo = "8521058397 / 10000000000" and dhi = "4260529209 / 5000000000"
      and tol = "1 / 10 ^ 6" and a' = "243767927 / 2000000000" and b' = "24376793 / 200000000",
      OF e3 _ _ _ module_numbers_3(1,2) floor module_numbers_3(3,4,5,6,7),
      folded x4_def]
  have e4: "243767927 / 2000000000 \<le> x4" "x4 \<le> 24376793 / 200000000"
    using s3(2,3) by simp_all
  have l3: "for_loop (stateless (rachford_rice z_data K_data)) (stateless (d_rachford_rice z_data K_data)) (1 / 10 ^ 6) (Suc n) x3 ()
      = for_loop (stateless (rachford_rice z_data K_data)) (stateless (d_rachford_rice z_data K_data)) (1 / 10 ^ 6) n x4 ()" for n
    using s3(1) by simp
  note s4 = module_last_stage [where x = x4 and a = "243767927 / 2000000000" and b = "24376793 / 200000000"
      and m = "6547 / 10000000000000" and dlo = "4260516001 / 5000000000" and tol = "1 / 10 ^ 6",
      OF e4 _ _ module_numbers_4(1,2) floor module_numbers_4(3,4), folded x5_def]
  have l4: "for_loop (stateless (rachford_rice z_data K_data)) (stateless (d_rachford_rice z_data K_data)) (1 / 10 ^ 6) (Suc n) x4 () = (Some (Inr x5), ())" for n
    using s4(1) by simp
  have step: "\<bar>x5 - x4\<bar> < 1 / 10 ^ 6"
    using s4(2) by (simp add: x5_def)
  have e5: "243765927 / 2000000000 \<le> x5" "x5 \<le> 24376993 / 200000000"
  proof -
    have "\<bar>x5 - x4\<bar> < 1 / 1000000"
      using step by simp
    with e4 show "243765927 / 2000000000 \<le> x5" "x5 \<le> 24376993 / 200000000"
      by linarith+
  qed
  have solution: "V_solution = Inr x5"
    unfolding V_solution_def newton_raphson_defaults
    unfolding newton_raphson_def option.case Let_def range V0_def l0 l1 l2 l3 l4
    by simp
  have dom: "- (5 / 16) < x5" "x5 < 50 / 33"
    using e5 by simp_all
  have "rr_objective (24376993 / 200000000) \<le> rr_objective x5"
    using e5 by (intro rr_objective_antimono) simp_all
  moreover have "rr_objective x5 \<le> rr_objective (243765927 / 2000000000)"
    using e5 by (intro rr_objective_antimono) simp_all
  ultimately have small: "\<bar>rr_objective x5\<bar> < 1 / 10 ^ 5"
    using module_numbers_5 by (simp only: abs_less_iff) linarith
  let ?sum = "\<Sum>i<length z_data. z_data ! i * (K_data ! i - 1) / (1 + x5 * (K_data ! i - 1))"
  have code: "rachford_rice z_data K_data x5 = Inr ?sum"
    unfolding rachford_rice_value [OF module_lengths module_denominators [OF dom]]
    by (simp only: foldl_upt_sum add_0)
  then have "?sum = rr_objective x5"
    unfolding module_values(1) [OF dom] by simp
  with small have residual: "\<bar>?sum\<bar> < 1 / 10 ^ 5"
    by simp
  have inside: "1 / (1 - Max (set K_data)) < x5" "x5 < 1 / (1 - Min (set K_data))"
    unfolding module_K_extremes using dom by simp_all
  show ?thesis
    using solution e5 residual code inside by (intro exI [of _ x5] conjI)
qed

end
